theory Spec2Isabelle
  imports Main
begin

section \<open>The document store\<close>

text \<open>
  The server actions of \<^verbatim>\<open>lib/actions/question.action.ts\<close> run against five
  collections of a document store. A collection is the list of its documents in natural
  (insertion) order; an object identifier is a natural number, and a fresh one is taken
  from a counter of the store. The console (what \<^verbatim>\<open>console.error\<close> received) and the
  paths handed to \<^verbatim>\<open>revalidatePath\<close> are part of the state, so that a swallowed error
  and a completed call can be told apart.
\<close>

type_synonym oid = nat

text \<open>
  Modelled from the spec: the schemas of the five collections. The model files
  (\<^verbatim>\<open>database/question.model\<close> and its siblings) are not part of the source file; the
  documents carry the fields that the data model of the specification lists and that
  the actions read and write.
\<close>

record user =
  u_id :: oid
  u_clerkId :: string
  u_reputation :: int

record tag =
  t_id :: oid
  t_name :: string
  t_questions :: "oid list"

record question =
  q_id :: oid
  q_title :: string
  q_content :: string
  q_author :: oid
  q_tags :: "oid list"
  q_upvotes :: "oid list"
  q_downvotes :: "oid list"
  q_views :: int
  q_answers :: "oid list"
  q_createdAt :: int

record interaction =
  i_id :: oid
  i_user :: oid
  i_action :: string
  i_question :: oid
  i_tags :: "oid list"

record answer =
  a_id :: oid
  a_question :: oid

datatype error =
    QuestionNotFound
  | UserNotFound
  | NullAuthorTypeError
  | NegativeSkip
  | RegExpSyntaxError

datatype 'a outcome = Returned 'a | Threw error

record db =
  Questions :: "question list"
  Tags :: "tag list"
  Users :: "user list"
  Interactions :: "interaction list"
  Answers :: "answer list"
  next_oid :: oid
  clock :: int
  console :: "error list"
  revalidated :: "string list"

subsection \<open>Store primitives\<close>

text \<open>
  \<^verbatim>\<open>findOneAndUpdate\<close> and \<^verbatim>\<open>findByIdAndUpdate\<close> change the first document that
  matches and leave the collection alone when none does (no upsert unless asked for).
\<close>

fun update_first :: "('a \<Rightarrow> bool) \<Rightarrow> ('a \<Rightarrow> 'a) \<Rightarrow> 'a list \<Rightarrow> 'a list" where
  "update_first P f [] = []"
| "update_first P f (x # xs) = (if P x then f x # xs else x # update_first P f xs)"

text \<open>\<^verbatim>\<open>deleteOne\<close> removes the first matching document.\<close>

fun deleteOne :: "('a \<Rightarrow> bool) \<Rightarrow> 'a list \<Rightarrow> 'a list" where
  "deleteOne P [] = []"
| "deleteOne P (x # xs) = (if P x then xs else x # deleteOne P xs)"

text \<open>The array update operators \<^verbatim>\<open>$pull\<close>, \<^verbatim>\<open>$push\<close> and \<^verbatim>\<open>$addToSet\<close>.\<close>

definition pull :: "'a \<Rightarrow> 'a list \<Rightarrow> 'a list" where
  "pull v xs = removeAll v xs"

definition push :: "'a \<Rightarrow> 'a list \<Rightarrow> 'a list" where
  "push v xs = xs @ [v]"

definition addToSet :: "'a \<Rightarrow> 'a list \<Rightarrow> 'a list" where
  "addToSet v xs = (if v \<in> set xs then xs else xs @ [v])"

definition findQuestionById :: "oid \<Rightarrow> question list \<Rightarrow> question option" where
  "findQuestionById i qs = find (\<lambda>q. q_id q = i) qs"

definition findUserById :: "oid \<Rightarrow> user list \<Rightarrow> user option" where
  "findUserById i us = find (\<lambda>u. u_id u = i) us"

definition findTagById :: "oid \<Rightarrow> tag list \<Rightarrow> tag option" where
  "findTagById i ts = find (\<lambda>t. t_id t = i) ts"

text \<open>\<^verbatim>\<open>User.findByIdAndUpdate(id, { $inc: { reputation: d } })\<close>.\<close>

definition inc_reputation :: "oid \<Rightarrow> int \<Rightarrow> user list \<Rightarrow> user list" where
  "inc_reputation i d us =
     update_first (\<lambda>u. u_id u = i) (\<lambda>u. u\<lparr>u_reputation := u_reputation u + d\<rparr>) us"

text \<open>The reputation stored for a user identifier, if that user has a document.\<close>

definition reputation_of :: "db \<Rightarrow> oid \<Rightarrow> int option" where
  "reputation_of s i = map_option u_reputation (findUserById i (Users s))"

text \<open>What the \<^verbatim>\<open>catch\<close> blocks do: log, then either rethrow or return.\<close>

definition log_and_rethrow :: "error \<Rightarrow> db \<Rightarrow> 'a outcome \<times> db" where
  "log_and_rethrow e s = (Threw e, s\<lparr>console := console s @ [e]\<rparr>)"

definition log_and_swallow :: "error \<Rightarrow> db \<Rightarrow> unit outcome \<times> db" where
  "log_and_swallow e s = (Returned (), s\<lparr>console := console s @ [e]\<rparr>)"

definition revalidatePath :: "string \<Rightarrow> db \<Rightarrow> db" where
  "revalidatePath p s = s\<lparr>revalidated := revalidated s @ [p]\<rparr>"

section \<open>Voting\<close>

record vote_params =
  v_questionId :: oid
  v_userId :: oid
  v_hasAlreadyUpvoted :: bool
  v_hasAlreadyDownvoted :: bool
  v_path :: string

text \<open>The \<^verbatim>\<open>updateQuery\<close> of \<^verbatim>\<open>upvoteQuestion\<close>, as a function on the document.\<close>

definition upvote_updateQuery :: "vote_params \<Rightarrow> question \<Rightarrow> question" where
  "upvote_updateQuery p q =
     (if v_hasAlreadyUpvoted p then q\<lparr>q_upvotes := pull (v_userId p) (q_upvotes q)\<rparr>
      else if v_hasAlreadyDownvoted p then
        q\<lparr>q_downvotes := pull (v_userId p) (q_downvotes q),
          q_upvotes := push (v_userId p) (q_upvotes q)\<rparr>
      else q\<lparr>q_upvotes := addToSet (v_userId p) (q_upvotes q)\<rparr>)"

text \<open>
  The \<^verbatim>\<open>updateQuery\<close> of \<^verbatim>\<open>downvoteQuestion\<close>. Its first branch is
  \<^verbatim>\<open>{ $pull: { downvote: userId } }\<close>: the path \<^verbatim>\<open>downvote\<close> is not a field of the
  question (the array is \<^verbatim>\<open>downvotes\<close>), and pulling from a path that is absent
  changes nothing.
\<close>

definition downvote_updateQuery :: "vote_params \<Rightarrow> question \<Rightarrow> question" where
  "downvote_updateQuery p q =
     (if v_hasAlreadyDownvoted p then q
      else if v_hasAlreadyUpvoted p then
        q\<lparr>q_upvotes := pull (v_userId p) (q_upvotes q),
          q_downvotes := push (v_userId p) (q_downvotes q)\<rparr>
      else q\<lparr>q_downvotes := addToSet (v_userId p) (q_downvotes q)\<rparr>)"

definition upvoteQuestion :: "vote_params \<Rightarrow> db \<Rightarrow> unit outcome \<times> db" where
  "upvoteQuestion p s =
     (let s1 = s\<lparr>Questions :=
                  update_first (\<lambda>q. q_id q = v_questionId p) (upvote_updateQuery p) (Questions s)\<rparr>
      in case findQuestionById (v_questionId p) (Questions s1) of
           None \<Rightarrow> log_and_rethrow QuestionNotFound s1
         | Some question \<Rightarrow>
             (let s2 = s1\<lparr>Users := inc_reputation (v_userId p)
                                    (if v_hasAlreadyUpvoted p then - 2 else 2) (Users s1)\<rparr>;
                  s3 = s2\<lparr>Users := inc_reputation (q_author question)
                                    (if v_hasAlreadyUpvoted p then - 10 else 10) (Users s2)\<rparr>
              in (Returned (), revalidatePath (v_path p) s3)))"

definition downvoteQuestion :: "vote_params \<Rightarrow> db \<Rightarrow> unit outcome \<times> db" where
  "downvoteQuestion p s =
     (let s1 = s\<lparr>Questions :=
                  update_first (\<lambda>q. q_id q = v_questionId p) (downvote_updateQuery p) (Questions s)\<rparr>
      in case findQuestionById (v_questionId p) (Questions s1) of
           None \<Rightarrow> log_and_rethrow QuestionNotFound s1
         | Some question \<Rightarrow>
             (let s2 = s1\<lparr>Users := inc_reputation (v_userId p)
                                    (if v_hasAlreadyDownvoted p then - 2 else 2) (Users s1)\<rparr>;
                  s3 = s2\<lparr>Users := inc_reputation (q_author question)
                                    (if v_hasAlreadyDownvoted p then - 10 else 10) (Users s2)\<rparr>
              in (Returned (), revalidatePath (v_path p) s3)))"

text \<open>
  The sign rule of the two reputation increments: \<open>- 1\<close> when the call takes back a vote
  of its own kind, \<open>1\<close> otherwise.
\<close>

definition vote_sign :: "bool \<Rightarrow> int" where
  "vote_sign removing = (if removing then - 1 else 1)"

section \<open>Text matching\<close>

text \<open>
  The source matches text with case-insensitive regular expressions built from the
  caller's strings: \<^verbatim>\<open>new RegExp(`^${tag}$`, "i")\<close> for a tag name,
  \<^verbatim>\<open>new RegExp(searchQuery, "i")\<close> and \<^verbatim>\<open>{ $regex: searchQuery, $options: "i" }\<close>
  for a search. The string is spliced in unescaped, so it is a pattern, not a literal
  text. The regular-expression engine is not part of the repository and is a parameter
  of the model: for the source of a pattern, \<open>re\<close> answers \<open>None\<close> when the pattern is
  refused (a syntax error is thrown), and otherwise the test of a subject against the
  pattern, letter case ignored.
\<close>

type_synonym regexp_engine = "string \<Rightarrow> (string \<Rightarrow> bool) option"

text \<open>
  The \<^verbatim>\<open>$or\<close> clause on title and content; \<^verbatim>\<open>if (searchQuery)\<close> is false for an
  absent and for an empty string, and then nothing is compiled.
\<close>

definition search_clause :: "regexp_engine \<Rightarrow> string option \<Rightarrow> error + (question \<Rightarrow> bool)" where
  "search_clause re searchQuery =
     (case searchQuery of
        None \<Rightarrow> Inr (\<lambda>q. True)
      | Some sq \<Rightarrow>
          (if sq = [] then Inr (\<lambda>q. True)
           else (case re sq of
                   None \<Rightarrow> Inl RegExpSyntaxError
                 | Some test \<Rightarrow> Inr (\<lambda>q. test (q_title q) \<or> test (q_content q)))))"

subsection \<open>Text without metacharacters\<close>

text \<open>
  What is known of the engine without modelling it: a text of letters, digits and spaces
  is a pattern that stands for itself. Anchored by \<^verbatim>\<open>^\<close> and \<^verbatim>\<open>$\<close> it is accepted,
  and it matches such a text exactly when the two are equal up to the case of the ASCII
  letters.
\<close>

definition toLowerCase :: "char \<Rightarrow> char" where
  "toLowerCase c =
     (if 65 \<le> (of_char c :: nat) \<and> (of_char c :: nat) \<le> 90
      then char_of ((of_char c :: nat) + 32) else c)"

definition equal_ignoring_case :: "string \<Rightarrow> string \<Rightarrow> bool" where
  "equal_ignoring_case a b = (map toLowerCase a = map toLowerCase b)"

definition plain_char :: "char \<Rightarrow> bool" where
  "plain_char c =
     (let n = (of_char c :: nat)
      in (48 \<le> n \<and> n \<le> 57) \<or> (65 \<le> n \<and> n \<le> 90) \<or> (97 \<le> n \<and> n \<le> 122) \<or> n = 32)"

definition plain :: "string \<Rightarrow> bool" where
  "plain str = list_all plain_char str"


text \<open>
  An engine to run the examples with. It is not the engine of the platform: it knows the
  plain patterns only. Anchored at both ends they test for equality up to case,
  unanchored for containment up to case, as on the platform; every other pattern it
  refuses, which the platform does for some of them (\<^verbatim>\<open>c++\<close>) and not for others.
  The examples use plain patterns, and \<^verbatim>\<open>c++\<close>.
\<close>

fun starts_with :: "string \<Rightarrow> string \<Rightarrow> bool" where
  "starts_with [] str = True"
| "starts_with (c # cs) [] = False"
| "starts_with (c # cs) (d # ds) = (c = d \<and> starts_with cs ds)"

fun contains :: "string \<Rightarrow> string \<Rightarrow> bool" where
  "contains pat [] = (pat = [])"
| "contains pat (d # ds) = (starts_with pat (d # ds) \<or> contains pat ds)"

definition contains_ignoring_case :: "string \<Rightarrow> string \<Rightarrow> bool" where
  "contains_ignoring_case pat text = contains (map toLowerCase pat) (map toLowerCase text)"

definition example_engine :: regexp_engine where
  "example_engine pattern =
     (if pattern \<noteq> [] \<and> hd pattern = CHR ''^'' \<and> tl pattern \<noteq> [] \<and>
         last pattern = CHR ''$'' \<and> plain (butlast (tl pattern))
      then Some (equal_ignoring_case (butlast (tl pattern)))
      else if plain pattern then Some (contains_ignoring_case pattern)
      else None)"

section \<open>Creating a question\<close>

record create_question_params =
  c_title :: string
  c_content :: string
  c_tags :: "string list"
  c_author :: oid
  c_path :: string

text \<open>
  \<^verbatim>\<open>Tag.findOneAndUpdate({ name: { $regex: new RegExp(`^${tag}$`, "i") } },
  { $setOnInsert: { name: tag }, $push: { questions: question._id } },
  { upsert: true, new: true })\<close>: constructing the expression throws when the tag is not
  a pattern; otherwise the first tag whose name matches receives the question, and when
  none matches a tag is inserted with the name as given. The updated or inserted document
  is returned.
\<close>

definition upsertTag :: "regexp_engine \<Rightarrow> string \<Rightarrow> oid \<Rightarrow> db \<Rightarrow> error + tag \<times> db" where
  "upsertTag re tg qid s =
     (case re (''^'' @ tg @ ''$'') of
        None \<Rightarrow> Inl RegExpSyntaxError
      | Some test \<Rightarrow>
          Inr (case find (\<lambda>t. test (t_name t)) (Tags s) of
                 Some t \<Rightarrow>
                   (t\<lparr>t_questions := push qid (t_questions t)\<rparr>,
                    s\<lparr>Tags := update_first (\<lambda>t. test (t_name t))
                                 (\<lambda>t. t\<lparr>t_questions := push qid (t_questions t)\<rparr>) (Tags s)\<rparr>)
               | None \<Rightarrow>
                   (let t = \<lparr>t_id = next_oid s, t_name = tg, t_questions = [qid]\<rparr>
                    in (t, s\<lparr>Tags := Tags s @ [t], next_oid := Suc (next_oid s)\<rparr>))))"

text \<open>
  The loop \<^verbatim>\<open>for (const tag of tags)\<close>, collecting \<^verbatim>\<open>tagDocuments\<close>. An error leaves
  the loop with the store as the tags before it have made it.
\<close>

fun tag_loop ::
  "regexp_engine \<Rightarrow> oid \<Rightarrow> string list \<Rightarrow> oid list \<Rightarrow> db \<Rightarrow> error \<times> db + oid list \<times> db" where
  "tag_loop re qid [] tagDocuments s = Inr (tagDocuments, s)"
| "tag_loop re qid (tg # rest) tagDocuments s =
     (case upsertTag re tg qid s of
        Inl e \<Rightarrow> Inl (e, s)
      | Inr (existingTag, s') \<Rightarrow> tag_loop re qid rest (tagDocuments @ [t_id existingTag]) s')"

text \<open>
  Modelled from the spec: the defaults of the question schema, which is not part of the
  source file. \<^verbatim>\<open>Question.create({ title, content, author })\<close> gives a document with
  a fresh identifier, empty tag, vote and answer arrays, a view counter of zero and the
  creation time of the clock.
\<close>

definition new_question :: "create_question_params \<Rightarrow> db \<Rightarrow> question" where
  "new_question p s =
     \<lparr>q_id = next_oid s, q_title = c_title p, q_content = c_content p, q_author = c_author p,
      q_tags = [], q_upvotes = [], q_downvotes = [], q_views = 0, q_answers = [],
      q_createdAt = clock s\<rparr>"

text \<open>
  An error thrown in the loop is caught, logged and swallowed: the question and the tags
  upserted so far stay, and the question gets no tags, no interaction is recorded, the
  author gains nothing and no path is revalidated.
\<close>

definition createQuestion ::
  "regexp_engine \<Rightarrow> create_question_params \<Rightarrow> db \<Rightarrow> unit outcome \<times> db" where
  "createQuestion re p s =
     (let question = new_question p s;
          s1 = s\<lparr>Questions := Questions s @ [question], next_oid := Suc (next_oid s)\<rparr>
      in case tag_loop re (q_id question) (c_tags p) [] s1 of
           Inl (e, s2) \<Rightarrow> log_and_swallow e s2
         | Inr (tagDocuments, s2) \<Rightarrow>
             (let s3 = s2\<lparr>Questions :=
                           update_first (\<lambda>q. q_id q = q_id question)
                             (\<lambda>q. q\<lparr>q_tags := q_tags q @ tagDocuments\<rparr>) (Questions s2)\<rparr>;
                  s4 = s3\<lparr>Interactions := Interactions s3 @
                           [\<lparr>i_id = next_oid s3, i_user = c_author p,
                             i_action = ''ask_question'', i_question = q_id question,
                             i_tags = tagDocuments\<rparr>],
                          next_oid := Suc (next_oid s3)\<rparr>;
                  s5 = s4\<lparr>Users := inc_reputation (c_author p) 5 (Users s4)\<rparr>
              in (Returned (), revalidatePath (c_path p) s5)))"





section \<open>Reading one question\<close>

text \<open>
  \<^verbatim>\<open>populate\<close> replaces the tag identifiers by the tag documents that exist (an
  identifier without a document is dropped from the array) and the author by the user
  document, or null. The stored document is kept beside the populated fields.
\<close>

record populated_question =
  p_question :: question
  p_tags :: "tag list"
  p_author :: "user option"

definition populate_tags :: "db \<Rightarrow> oid list \<Rightarrow> tag list" where
  "populate_tags s ids = List.map_filter (\<lambda>i. findTagById i (Tags s)) ids"

definition populate :: "db \<Rightarrow> question \<Rightarrow> populated_question" where
  "populate s q =
     \<lparr>p_question = q, p_tags = populate_tags s (q_tags q),
      p_author = findUserById (q_author q) (Users s)\<rparr>"

definition getQuestionById :: "oid \<Rightarrow> db \<Rightarrow> populated_question option outcome \<times> db" where
  "getQuestionById questionId s =
     (Returned (map_option (populate s) (findQuestionById questionId (Questions s))), s)"

section \<open>Editing and deleting\<close>

record edit_question_params =
  e_questionId :: oid
  e_title :: string
  e_content :: string
  e_path :: string

definition editQuestion :: "edit_question_params \<Rightarrow> db \<Rightarrow> unit outcome \<times> db" where
  "editQuestion p s =
     (case findQuestionById (e_questionId p) (Questions s) of
        None \<Rightarrow> log_and_swallow QuestionNotFound s
      | Some question \<Rightarrow>
          (let s1 = s\<lparr>Questions :=
                        update_first (\<lambda>q. q_id q = q_id question)
                          (\<lambda>q. q\<lparr>q_title := e_title p, q_content := e_content p\<rparr>)
                          (Questions s)\<rparr>
           in (Returned (), revalidatePath (e_path p) s1)))"

record delete_question_params =
  d_questionId :: oid
  d_path :: string

text \<open>
  \<^verbatim>\<open>Tag.updateMany({ questions: id }, { $pull: { questions: id } })\<close> changes every tag
  that lists the question.
\<close>

definition pull_question_from_tags :: "oid \<Rightarrow> tag list \<Rightarrow> tag list" where
  "pull_question_from_tags qid ts =
     map (\<lambda>t. if qid \<in> set (t_questions t)
               then t\<lparr>t_questions := pull qid (t_questions t)\<rparr> else t) ts"

text \<open>
  The question is read first and its \<^verbatim>\<open>author\<close> is used last: for an identifier
  without a document the four deletions run, and then reading \<^verbatim>\<open>question.author\<close>
  of null throws a TypeError, which the \<^verbatim>\<open>catch\<close> logs and swallows.
\<close>

definition deleteQuestion :: "delete_question_params \<Rightarrow> db \<Rightarrow> unit outcome \<times> db" where
  "deleteQuestion p s =
     (let question = findQuestionById (d_questionId p) (Questions s);
          s1 = s\<lparr>Questions := deleteOne (\<lambda>q. q_id q = d_questionId p) (Questions s)\<rparr>;
          s2 = s1\<lparr>Answers := filter (\<lambda>a. a_question a \<noteq> d_questionId p) (Answers s1)\<rparr>;
          s3 = s2\<lparr>Interactions :=
                    filter (\<lambda>i. i_question i \<noteq> d_questionId p) (Interactions s2)\<rparr>;
          s4 = s3\<lparr>Tags := pull_question_from_tags (d_questionId p) (Tags s3)\<rparr>
      in case question of
           None \<Rightarrow> log_and_swallow NullAuthorTypeError s4
         | Some q \<Rightarrow>
             (let s5 = s4\<lparr>Users := inc_reputation (q_author q) (- 5) (Users s4)\<rparr>
              in (Returned (), revalidatePath (d_path p) s5)))"

section \<open>Listing and recommending\<close>

record get_questions_params =
  g_searchQuery :: "string option"
  g_filter :: "string option"
  g_page :: "int option"
  g_pageSize :: "int option"

datatype sortOptions = NoSort | CreatedAtDescending | ViewsDescending

definition apply_sort :: "sortOptions \<Rightarrow> question list \<Rightarrow> question list" where
  "apply_sort so qs =
     (case so of
        NoSort \<Rightarrow> qs
      | CreatedAtDescending \<Rightarrow> sort_key (\<lambda>q. - q_createdAt q) qs
      | ViewsDescending \<Rightarrow> sort_key (\<lambda>q. - q_views q) qs)"

text \<open>
  A cursor limit of zero means no limit, and a negative one is taken by its magnitude.
  A negative skip is refused by the store.
\<close>

definition limit :: "int \<Rightarrow> 'a list \<Rightarrow> 'a list" where
  "limit n xs = (if n = 0 then xs else take (nat \<bar>n\<bar>) xs)"

text \<open>Default parameters: \<^verbatim>\<open>page = 1, pageSize = 10\<close> apply when the field is absent.\<close>

definition with_default :: "'a \<Rightarrow> 'a option \<Rightarrow> 'a" where
  "with_default d v = (case v of None \<Rightarrow> d | Some x \<Rightarrow> x)"

text \<open>
  The \<^verbatim>\<open>query\<close> and the \<^verbatim>\<open>sortOptions\<close> that \<^verbatim>\<open>getQuestions\<close> builds: the
  search clause, to which the \<^verbatim>\<open>switch\<close> on the filter adds
  \<^verbatim>\<open>answers: { $size: 0 }\<close> or a sort order.
\<close>

definition questions_query ::
  "regexp_engine \<Rightarrow> get_questions_params \<Rightarrow> error + (question \<Rightarrow> bool)" where
  "questions_query re p =
     (case search_clause re (g_searchQuery p) of
        Inl e \<Rightarrow> Inl e
      | Inr matches \<Rightarrow>
          Inr (if g_filter p = Some ''unanswered''
               then (\<lambda>q. matches q \<and> length (q_answers q) = 0)
               else matches))"

definition questions_sortOptions :: "get_questions_params \<Rightarrow> sortOptions" where
  "questions_sortOptions p =
     (if g_filter p = Some ''newest'' then CreatedAtDescending
      else if g_filter p = Some ''frequent'' then ViewsDescending
      else NoSort)"

text \<open>
  The expression is constructed while the query is built, so a refused pattern throws
  before the store is asked; the \<^verbatim>\<open>catch\<close> logs and rethrows.
\<close>

definition getQuestions ::
  "regexp_engine \<Rightarrow> get_questions_params \<Rightarrow> db \<Rightarrow>
     (populated_question list \<times> bool) outcome \<times> db" where
  "getQuestions re p s =
     (let page = with_default 1 (g_page p);
          pageSize = with_default 10 (g_pageSize p);
          skipAmount = (page - 1) * pageSize
      in case questions_query re p of
           Inl e \<Rightarrow> log_and_rethrow e s
         | Inr query \<Rightarrow>
             (let sortOptions = questions_sortOptions p
              in if skipAmount < 0 then log_and_rethrow NegativeSkip s
                 else
                   (let questions = map (populate s)
                          (limit pageSize (drop (nat skipAmount)
                             (apply_sort sortOptions (filter query (Questions s)))));
                        totalQuestions = int (length (filter query (Questions s)));
                        isNext = (totalQuestions > skipAmount + int (length questions))
                    in (Returned (questions, isNext), s))))"

record recommended_params =
  r_userId :: string
  r_page :: "int option"
  r_pageSize :: "int option"
  r_searchQuery :: "string option"

text \<open>
  The tags of the user's interactions, populated and flattened by the \<^verbatim>\<open>reduce\<close>, then
  their identifiers without repetition. Only the members of this list matter to the
  \<^verbatim>\<open>$in\<close> of the query.
\<close>

definition distinctUserTagIds :: "db \<Rightarrow> user \<Rightarrow> oid list" where
  "distinctUserTagIds s usr =
     (let userInteractions = filter (\<lambda>i. i_user i = u_id usr) (Interactions s);
          userTags = foldl (\<lambda>tags interaction. tags @ populate_tags s (i_tags interaction))
                       [] userInteractions
      in remdups (map t_id userTags))"

definition recommended_query ::
  "regexp_engine \<Rightarrow> oid list \<Rightarrow> user \<Rightarrow> string option \<Rightarrow> error + (question \<Rightarrow> bool)" where
  "recommended_query re tagIds usr searchQuery =
     (case search_clause re searchQuery of
        Inl e \<Rightarrow> Inl e
      | Inr matches \<Rightarrow>
          Inr (\<lambda>q. (list_ex (\<lambda>t. t \<in> set tagIds) (q_tags q) \<and> q_author q \<noteq> u_id usr) \<and>
                    matches q))"

text \<open>
  Here the pattern goes to the store as a string, and a refused one fails the count
  that comes first.
\<close>

definition getRecommendedQuestions ::
  "regexp_engine \<Rightarrow> recommended_params \<Rightarrow> db \<Rightarrow>
     (populated_question list \<times> bool) outcome \<times> db" where
  "getRecommendedQuestions re p s =
     (let page = with_default 1 (r_page p);
          pageSize = with_default 10 (r_pageSize p)
      in case find (\<lambda>u. u_clerkId u = r_userId p) (Users s) of
           None \<Rightarrow> log_and_rethrow UserNotFound s
         | Some usr \<Rightarrow>
             (let skipAmount = (page - 1) * pageSize
              in case recommended_query re (distinctUserTagIds s usr) usr (r_searchQuery p) of
                   Inl e \<Rightarrow> log_and_rethrow e s
                 | Inr query \<Rightarrow>
                     (let totalQuestions = int (length (filter query (Questions s)))
                      in if skipAmount < 0 then log_and_rethrow NegativeSkip s
                         else
                           (let recommendedQuestions = map (populate s)
                                  (limit pageSize (drop (nat skipAmount)
                                     (filter query (Questions s))));
                                isNext = (totalQuestions >
                                          skipAmount + int (length recommendedQuestions))
                            in (Returned (recommendedQuestions, isNext), s)))))"

section \<open>An example store\<close>

text \<open>
  One question (7, asked by user 2, tagged with tag 5, upvoted by user 3, downvoted by
  user 1, with one answer), three users, and the interaction of asking the question.
\<close>

definition demo_db :: db where
  "demo_db =
     \<lparr>Questions =
        [\<lparr>q_id = 7, q_title = ''How to sort'', q_content = ''I have a list'', q_author = 2,
          q_tags = [5], q_upvotes = [3], q_downvotes = [1], q_views = 4, q_answers = [8],
          q_createdAt = 10\<rparr>],
      Tags = [\<lparr>t_id = 5, t_name = ''Rust'', t_questions = [7]\<rparr>],
      Users =
        [\<lparr>u_id = 1, u_clerkId = ''clerk_a'', u_reputation = 50\<rparr>,
         \<lparr>u_id = 2, u_clerkId = ''clerk_b'', u_reputation = 100\<rparr>,
         \<lparr>u_id = 3, u_clerkId = ''clerk_c'', u_reputation = 0\<rparr>],
      Interactions =
        [\<lparr>i_id = 6, i_user = 2, i_action = ''ask_question'', i_question = 7, i_tags = [5]\<rparr>],
      Answers = [\<lparr>a_id = 8, a_question = 7\<rparr>],
      next_oid = 9, clock = 11, console = [], revalidated = []\<rparr>"

definition vote_by :: "oid \<Rightarrow> oid \<Rightarrow> bool \<Rightarrow> bool \<Rightarrow> vote_params" where
  "vote_by qid uid up down =
     \<lparr>v_questionId = qid, v_userId = uid, v_hasAlreadyUpvoted = up,
      v_hasAlreadyDownvoted = down, v_path = ''/''\<rparr>"

definition edit_by :: "oid \<Rightarrow> edit_question_params" where
  "edit_by qid = \<lparr>e_questionId = qid, e_title = ''New title'', e_content = ''New body'', e_path = ''/''\<rparr>"

definition delete_by :: "oid \<Rightarrow> delete_question_params" where
  "delete_by qid = \<lparr>d_questionId = qid, d_path = ''/''\<rparr>"


text \<open>
  A second store for the listings: three questions in insertion order (two of them about
  Rust, one answered), two tags, two users and the interactions of asking.
\<close>

definition listing_db :: db where
  "listing_db =
     \<lparr>Questions =
        [\<lparr>q_id = 10, q_title = ''Rust lifetimes'', q_content = ''borrow'', q_author = 1,
          q_tags = [20], q_upvotes = [], q_downvotes = [], q_views = 5, q_answers = [],
          q_createdAt = 1\<rparr>,
         \<lparr>q_id = 11, q_title = ''Go channels'', q_content = ''select'', q_author = 2,
          q_tags = [21], q_upvotes = [], q_downvotes = [], q_views = 9, q_answers = [30],
          q_createdAt = 2\<rparr>,
         \<lparr>q_id = 12, q_title = ''Traits'', q_content = ''impl in rust'', q_author = 2,
          q_tags = [20, 21], q_upvotes = [], q_downvotes = [], q_views = 1, q_answers = [],
          q_createdAt = 3\<rparr>],
      Tags =
        [\<lparr>t_id = 20, t_name = ''rust'', t_questions = [10, 12]\<rparr>,
         \<lparr>t_id = 21, t_name = ''go'', t_questions = [11, 12]\<rparr>],
      Users =
        [\<lparr>u_id = 1, u_clerkId = ''clerk_a'', u_reputation = 5\<rparr>,
         \<lparr>u_id = 2, u_clerkId = ''clerk_b'', u_reputation = 10\<rparr>],
      Interactions =
        [\<lparr>i_id = 40, i_user = 1, i_action = ''ask_question'', i_question = 10, i_tags = [20]\<rparr>,
         \<lparr>i_id = 41, i_user = 2, i_action = ''ask_question'', i_question = 11, i_tags = [21]\<rparr>,
         \<lparr>i_id = 42, i_user = 2, i_action = ''ask_question'', i_question = 12,
           i_tags = [20, 21]\<rparr>],
      Answers = [\<lparr>a_id = 30, a_question = 11\<rparr>],
      next_oid = 43, clock = 4, console = [], revalidated = []\<rparr>"

definition list_page :: "string option \<Rightarrow> string option \<Rightarrow> int \<Rightarrow> int \<Rightarrow> get_questions_params" where
  "list_page sq flt page pageSize =
     \<lparr>g_searchQuery = sq, g_filter = flt, g_page = Some page, g_pageSize = Some pageSize\<rparr>"

definition recommend_page :: "string \<Rightarrow> string option \<Rightarrow> int \<Rightarrow> int \<Rightarrow> recommended_params" where
  "recommend_page clerk sq page pageSize =
     \<lparr>r_userId = clerk, r_page = Some page, r_pageSize = Some pageSize, r_searchQuery = sq\<rparr>"

text \<open>The identifiers of the questions a listing returned, with its \<^verbatim>\<open>isNext\<close>.\<close>

definition listed :: "(populated_question list \<times> bool) outcome \<Rightarrow> (oid list \<times> bool) option" where
  "listed r = (case r of Returned (qs, isNext) \<Rightarrow> Some (map (\<lambda>pq. q_id (p_question pq)) qs, isNext)
                       | Threw e \<Rightarrow> None)"

section \<open>Properties of the store primitives\<close>

lemma update_first_no_match: "find P xs = None \<Longrightarrow> update_first P f xs = xs"
  by (induction xs) (auto split: if_splits)

lemma find_update_first_same:
  "(\<And>x. P x \<Longrightarrow> P (f x)) \<Longrightarrow> find P (update_first P f xs) = map_option f (find P xs)"
  by (induction xs) auto

lemma findUserById_inc_reputation:
  "findUserById j (inc_reputation i d us) =
     map_option (\<lambda>u. if j = i then u\<lparr>u_reputation := u_reputation u + d\<rparr> else u) (findUserById j us)"
  unfolding findUserById_def inc_reputation_def
  by (induction us) (auto simp: option.map_ident)

lemma findQuestionById_update_first:
  "(\<And>q. q_id (f q) = q_id q) \<Longrightarrow>
   findQuestionById i (update_first (\<lambda>q. q_id q = i) f qs) = map_option f (findQuestionById i qs)"
  unfolding findQuestionById_def by (rule find_update_first_same) simp

lemma q_id_upvote_updateQuery: "q_id (upvote_updateQuery p q) = q_id q"
  by (simp add: upvote_updateQuery_def)

lemma q_id_downvote_updateQuery: "q_id (downvote_updateQuery p q) = q_id q"
  by (simp add: downvote_updateQuery_def)

lemma q_author_upvote_updateQuery: "q_author (upvote_updateQuery p q) = q_author q"
  by (simp add: upvote_updateQuery_def)

lemma q_author_downvote_updateQuery: "q_author (downvote_updateQuery p q) = q_author q"
  by (simp add: downvote_updateQuery_def)

lemma deleteOne_distinct:
  "distinct (map f xs) \<Longrightarrow> find (\<lambda>x. f x = k) xs = Some y \<Longrightarrow>
   deleteOne (\<lambda>x. f x = k) xs = filter (\<lambda>x. f x \<noteq> k) xs"
proof (induction xs)
  case Nil
  then show ?case by simp
next
  case (Cons a xs)
  show ?case
  proof (cases "f a = k")
    case True
    with Cons.prems(1) have "\<forall>x\<in>set xs. f x \<noteq> k" by (auto simp: image_iff)
    then have "filter (\<lambda>x. f x \<noteq> k) xs = xs" by (simp add: filter_id_conv)
    with True show ?thesis by simp
  next
    case False
    with Cons show ?thesis by simp
  qed
qed

section \<open>Properties of voting\<close>

lemma upvoteQuestion_found:
  assumes "findQuestionById (v_questionId p) (Questions s) = Some q"
  shows "upvoteQuestion p s =
     (Returned (),
      revalidatePath (v_path p)
        (s\<lparr>Questions := update_first (\<lambda>q. q_id q = v_questionId p) (upvote_updateQuery p) (Questions s),
           Users := inc_reputation (q_author q) (if v_hasAlreadyUpvoted p then - 10 else 10)
                     (inc_reputation (v_userId p) (if v_hasAlreadyUpvoted p then - 2 else 2) (Users s))\<rparr>))"
  using assms
  by (simp add: upvoteQuestion_def Let_def findQuestionById_update_first
      q_id_upvote_updateQuery q_author_upvote_updateQuery)

lemma downvoteQuestion_found:
  assumes "findQuestionById (v_questionId p) (Questions s) = Some q"
  shows "downvoteQuestion p s =
     (Returned (),
      revalidatePath (v_path p)
        (s\<lparr>Questions := update_first (\<lambda>q. q_id q = v_questionId p) (downvote_updateQuery p) (Questions s),
           Users := inc_reputation (q_author q) (if v_hasAlreadyDownvoted p then - 10 else 10)
                     (inc_reputation (v_userId p) (if v_hasAlreadyDownvoted p then - 2 else 2) (Users s))\<rparr>))"
  using assms
  by (simp add: downvoteQuestion_def Let_def findQuestionById_update_first
      q_id_downvote_updateQuery q_author_downvote_updateQuery)

lemma reputation_of_votes:
  "reputation_of (revalidatePath pa (s\<lparr>Questions := qs,
        Users := inc_reputation a (sg * 10) (inc_reputation v (sg * 2) (Users s))\<rparr>)) x =
   map_option (\<lambda>r. r + (if x = v then sg * 2 else 0) + (if x = a then sg * 10 else 0))
     (reputation_of s x)"
  by (cases "findUserById x (Users s)")
     (simp_all add: reputation_of_def revalidatePath_def findUserById_inc_reputation)

lemmas demo_simps = demo_db_def vote_by_def upvoteQuestion_def downvoteQuestion_def
  Let_def findQuestionById_def findUserById_def inc_reputation_def reputation_of_def
  revalidatePath_def log_and_rethrow_def upvote_updateQuery_def downvote_updateQuery_def
  pull_def push_def addToSet_def vote_sign_def

text \<open>
  Claim C1, as stated: on an existing question a vote changes the voter's reputation by
  exactly 2 and the author's by exactly 10. It fails when the voter is the author: user
  2 upvotes their own question 7, both increments reach the same document, and the
  reputation goes from 100 to 112.
\<close>

theorem upvote_own_question_counterexample:
  "map_option q_author (findQuestionById 7 (Questions demo_db)) = Some 2 \<and>
   reputation_of demo_db 2 = Some 100 \<and>
   reputation_of (snd (upvoteQuestion (vote_by 7 2 False False) demo_db)) 2 = Some 112 \<and>
   reputation_of (snd (upvoteQuestion (vote_by 7 2 False False) demo_db)) 2 \<noteq> Some (100 + 2) \<and>
   reputation_of (snd (upvoteQuestion (vote_by 7 2 False False) demo_db)) 2 \<noteq> Some (100 + 10)"
  by (simp add: demo_simps)

text \<open>
  Claim C1, amended: on an existing question both \<^verbatim>\<open>upvoteQuestion\<close> and
  \<^verbatim>\<open>downvoteQuestion\<close> return, and the reputation of every user document \<open>x\<close> changes
  by 2 times the sign if \<open>x\<close> is the voter plus 10 times the sign if \<open>x\<close> is the author of
  the question, the sign being \<open>- 1\<close> when the caller reports a vote of the same kind
  (\<^verbatim>\<open>hasAlreadyUpvoted\<close> for an upvote, \<^verbatim>\<open>hasAlreadyDownvoted\<close> for a downvote) and
  \<open>1\<close> otherwise. So a voter other than the author moves by exactly 2, the author by
  exactly 10, and a voter who is the author by 12.
\<close>

theorem vote_reputation:
  assumes "findQuestionById (v_questionId p) (Questions s) = Some q"
  shows "fst (upvoteQuestion p s) = Returned () \<and>
         reputation_of (snd (upvoteQuestion p s)) x =
           map_option (\<lambda>r. r + (if x = v_userId p then vote_sign (v_hasAlreadyUpvoted p) * 2 else 0)
                             + (if x = q_author q then vote_sign (v_hasAlreadyUpvoted p) * 10 else 0))
             (reputation_of s x) \<and>
         fst (downvoteQuestion p s) = Returned () \<and>
         reputation_of (snd (downvoteQuestion p s)) x =
           map_option (\<lambda>r. r + (if x = v_userId p then vote_sign (v_hasAlreadyDownvoted p) * 2 else 0)
                             + (if x = q_author q then vote_sign (v_hasAlreadyDownvoted p) * 10 else 0))
             (reputation_of s x)"
proof -
  have up: "(if v_hasAlreadyUpvoted p then - 2 else 2) = vote_sign (v_hasAlreadyUpvoted p) * 2"
       "(if v_hasAlreadyUpvoted p then - 10 else 10) = vote_sign (v_hasAlreadyUpvoted p) * 10"
    by (simp_all add: vote_sign_def)
  have down: "(if v_hasAlreadyDownvoted p then - 2 else 2) = vote_sign (v_hasAlreadyDownvoted p) * 2"
       "(if v_hasAlreadyDownvoted p then - 10 else 10) = vote_sign (v_hasAlreadyDownvoted p) * 10"
    by (simp_all add: vote_sign_def)
  show ?thesis
    unfolding upvoteQuestion_found [OF assms] downvoteQuestion_found [OF assms] up down
    by (simp add: reputation_of_votes)
qed

text \<open>
  Claim C1, witness: user 1 votes on question 7 of user 2 while reporting an earlier
  downvote; upvoting gives 50 + 2 and 100 + 10, downvoting 50 - 2 and 100 - 10.
\<close>

theorem vote_reputation_witness:
  "findQuestionById (v_questionId (vote_by 7 1 False True)) (Questions demo_db) \<noteq> None \<and>
   reputation_of (snd (upvoteQuestion (vote_by 7 1 False True) demo_db)) 1 = Some 52 \<and>
   reputation_of (snd (upvoteQuestion (vote_by 7 1 False True) demo_db)) 2 = Some 110 \<and>
   reputation_of (snd (downvoteQuestion (vote_by 7 1 False True) demo_db)) 1 = Some 48 \<and>
   reputation_of (snd (downvoteQuestion (vote_by 7 1 False True) demo_db)) 2 = Some 90"
proof -
  have h: "findQuestionById (v_questionId (vote_by 7 1 False True)) (Questions demo_db)
             = Some (hd (Questions demo_db))"
    by (simp add: demo_simps)
  show ?thesis
    using vote_reputation [OF h, of 1] vote_reputation [OF h, of 2]
    by (simp add: demo_simps)
qed

text \<open>
  Claim C2: \<^verbatim>\<open>downvoteQuestion\<close> with \<^verbatim>\<open>hasAlreadyDownvoted\<close> removes the user from
  the downvotes of the question. The code pulls from the path \<^verbatim>\<open>downvote\<close> instead of
  \<^verbatim>\<open>downvotes\<close>: user 1, who has downvoted question 7, toggles the downvote off, the
  call returns, and user 1 is still in the downvotes.
\<close>

theorem downvote_toggle_off_keeps_downvote:
  "map q_downvotes (Questions demo_db) = [[1]] \<and>
   fst (downvoteQuestion (vote_by 7 1 False True) demo_db) = Returned () \<and>
   map q_downvotes (Questions (snd (downvoteQuestion (vote_by 7 1 False True) demo_db))) = [[1]]"
  by (simp add: demo_simps)

text \<open>
  Claim C3: \<^verbatim>\<open>upvoteQuestion\<close> with \<^verbatim>\<open>hasAlreadyDownvoted\<close> true and
  \<^verbatim>\<open>hasAlreadyUpvoted\<close> false, on an existing question, pulls the user out of the
  downvotes and pushes the user onto the upvotes in the one update, so afterwards the user
  is in the upvotes and not in the downvotes; and the reputation increments carry the
  add sign: 2 for the voter's document and 10 for the author's.
\<close>

theorem upvote_switch_from_downvote:
  assumes "findQuestionById (v_questionId p) (Questions s) = Some q"
    and "v_hasAlreadyDownvoted p" and "\<not> v_hasAlreadyUpvoted p"
  shows "fst (upvoteQuestion p s) = Returned () \<and>
         (\<exists>q'. findQuestionById (v_questionId p) (Questions (snd (upvoteQuestion p s))) = Some q' \<and>
               q_downvotes q' = removeAll (v_userId p) (q_downvotes q) \<and>
               q_upvotes q' = q_upvotes q @ [v_userId p] \<and>
               v_userId p \<notin> set (q_downvotes q') \<and> v_userId p \<in> set (q_upvotes q')) \<and>
         reputation_of (snd (upvoteQuestion p s)) x =
           map_option (\<lambda>r. r + (if x = v_userId p then 2 else 0)
                             + (if x = q_author q then 10 else 0))
             (reputation_of s x)"
proof -
  have rep: "reputation_of (snd (upvoteQuestion p s)) x =
           map_option (\<lambda>r. r + (if x = v_userId p then 2 else 0)
                             + (if x = q_author q then 10 else 0)) (reputation_of s x)"
    using reputation_of_votes [where sg = 1 and s = s and a = "q_author q" and v = "v_userId p"] assms(3)
    by (simp add: upvoteQuestion_found [OF assms(1)])
  have q': "findQuestionById (v_questionId p) (Questions (snd (upvoteQuestion p s))) =
             Some (upvote_updateQuery p q)"
    by (simp add: upvoteQuestion_found [OF assms(1)] revalidatePath_def
        findQuestionById_update_first q_id_upvote_updateQuery assms(1))
  have sets: "q_downvotes (upvote_updateQuery p q) = removeAll (v_userId p) (q_downvotes q)"
    "q_upvotes (upvote_updateQuery p q) = q_upvotes q @ [v_userId p]"
    using assms(2,3) by (simp_all add: upvote_updateQuery_def pull_def push_def)
  show ?thesis
    using rep q' sets by (simp add: upvoteQuestion_found [OF assms(1)])
qed

text \<open>
  Claim C3, witness: user 1 switches the downvote on question 7 to an upvote.
\<close>

theorem upvote_switch_from_downvote_witness:
  "findQuestionById (v_questionId (vote_by 7 1 False True)) (Questions demo_db) \<noteq> None \<and>
   v_hasAlreadyDownvoted (vote_by 7 1 False True) \<and> \<not> v_hasAlreadyUpvoted (vote_by 7 1 False True) \<and>
   map q_downvotes (Questions (snd (upvoteQuestion (vote_by 7 1 False True) demo_db))) = [[]] \<and>
   map q_upvotes (Questions (snd (upvoteQuestion (vote_by 7 1 False True) demo_db))) = [[3, 1]] \<and>
   reputation_of (snd (upvoteQuestion (vote_by 7 1 False True) demo_db)) 1 = Some 52 \<and>
   reputation_of (snd (upvoteQuestion (vote_by 7 1 False True) demo_db)) 2 = Some 110"
proof -
  have h: "findQuestionById (v_questionId (vote_by 7 1 False True)) (Questions demo_db)
             = Some (hd (Questions demo_db))"
    by (simp add: demo_simps)
  have d: "v_hasAlreadyDownvoted (vote_by 7 1 False True)"
    and u: "\<not> v_hasAlreadyUpvoted (vote_by 7 1 False True)"
    by (simp_all add: vote_by_def)
  show ?thesis
    using upvote_switch_from_downvote [OF h d u, of 1] upvote_switch_from_downvote [OF h d u, of 2]
    by (simp add: demo_simps)
qed

text \<open>
  Claim C10: when the question identifier has no document, \<^verbatim>\<open>upvoteQuestion\<close> and
  \<^verbatim>\<open>downvoteQuestion\<close> throw the not-found error, and the store is as before but for
  the line on the console: no reputation and no vote array has changed.
\<close>

theorem vote_on_missing_question:
  assumes "findQuestionById (v_questionId p) (Questions s) = None"
  shows "upvoteQuestion p s = (Threw QuestionNotFound, s\<lparr>console := console s @ [QuestionNotFound]\<rparr>) \<and>
         downvoteQuestion p s = (Threw QuestionNotFound, s\<lparr>console := console s @ [QuestionNotFound]\<rparr>) \<and>
         Users (snd (upvoteQuestion p s)) = Users s \<and>
         Questions (snd (upvoteQuestion p s)) = Questions s \<and>
         Users (snd (downvoteQuestion p s)) = Users s \<and>
         Questions (snd (downvoteQuestion p s)) = Questions s"
proof -
  have same: "update_first (\<lambda>q. q_id q = v_questionId p) f (Questions s) = Questions s" for f
    using assms unfolding findQuestionById_def by (rule update_first_no_match)
  show ?thesis
    using assms by (simp add: upvoteQuestion_def downvoteQuestion_def same log_and_rethrow_def)
qed

text \<open>
  Claim C10, witness: a vote on the absent question 99.
\<close>

theorem vote_on_missing_question_witness:
  "findQuestionById (v_questionId (vote_by 99 1 False False)) (Questions demo_db) = None \<and>
   fst (upvoteQuestion (vote_by 99 1 False False) demo_db) = Threw QuestionNotFound \<and>
   fst (downvoteQuestion (vote_by 99 1 False False) demo_db) = Threw QuestionNotFound \<and>
   Users (snd (upvoteQuestion (vote_by 99 1 False False) demo_db)) = Users demo_db \<and>
   Questions (snd (downvoteQuestion (vote_by 99 1 False False) demo_db)) = Questions demo_db"
proof -
  have h: "findQuestionById (v_questionId (vote_by 99 1 False False)) (Questions demo_db) = None"
    by (simp add: demo_simps)
  show ?thesis
    using vote_on_missing_question [OF h] h by simp
qed

section \<open>Properties of editing and deleting\<close>

text \<open>
  Claim C5, as stated: \<^verbatim>\<open>editQuestion\<close> on an identifier without a document raises a
  not-found error to the caller. It does not: the error is thrown inside the
  \<^verbatim>\<open>try\<close>, and the \<^verbatim>\<open>catch\<close> logs it and returns. Editing the absent question
  99 returns normally.
\<close>

theorem editQuestion_missing_returns_counterexample:
  "findQuestionById (e_questionId (edit_by 99)) (Questions demo_db) = None \<and>
   fst (editQuestion (edit_by 99) demo_db) = Returned () \<and>
   fst (editQuestion (edit_by 99) demo_db) \<noteq> Threw QuestionNotFound"
  by (simp add: edit_by_def demo_db_def editQuestion_def findQuestionById_def log_and_swallow_def)

text \<open>
  Claim C5, amended: \<^verbatim>\<open>editQuestion\<close> on an identifier without a document throws the
  not-found error internally, logs it and returns normally to the caller, with the store
  unchanged but for the console; \<^verbatim>\<open>getQuestionById\<close> on the same identifier returns
  null without any error.
\<close>

theorem editQuestion_missing_swallowed:
  assumes "findQuestionById (e_questionId p) (Questions s) = None"
  shows "editQuestion p s = (Returned (), s\<lparr>console := console s @ [QuestionNotFound]\<rparr>) \<and>
         getQuestionById (e_questionId p) s = (Returned None, s)"
  using assms by (simp add: editQuestion_def log_and_swallow_def getQuestionById_def)

text \<open>
  Claim C5, witness of the amended statement: editing the absent question 99.
\<close>

theorem editQuestion_missing_swallowed_witness:
  "findQuestionById (e_questionId (edit_by 99)) (Questions demo_db) = None \<and>
   fst (editQuestion (edit_by 99) demo_db) = Returned () \<and>
   console (snd (editQuestion (edit_by 99) demo_db)) = [QuestionNotFound] \<and>
   Questions (snd (editQuestion (edit_by 99) demo_db)) = Questions demo_db \<and>
   fst (getQuestionById (e_questionId (edit_by 99)) demo_db) = Returned None"
proof -
  have h: "findQuestionById (e_questionId (edit_by 99)) (Questions demo_db) = None"
    by (simp add: edit_by_def demo_db_def findQuestionById_def)
  show ?thesis
    using editQuestion_missing_swallowed [OF h] h by (simp add: demo_db_def)
qed

lemma pull_question_from_tags_eq:
  "pull_question_from_tags qid ts = map (\<lambda>t. t\<lparr>t_questions := removeAll qid (t_questions t)\<rparr>) ts"
  by (simp add: pull_question_from_tags_def pull_def)

text \<open>
  Claim C6: \<^verbatim>\<open>deleteQuestion\<close> on an existing question (identifiers being unique in
  the collection) returns, and the store afterwards is the store before with exactly
  these changes: the question document is removed and the other questions stay; the
  answers and the interactions that refer to the question are removed and the others
  stay; the question is pulled out of the list of every tag, the tags and the rest of
  their lists staying; the document of the author has 5 less reputation and every other
  user document is as before; the path is revalidated. So nothing refers to the question
  any more, and the reputation of the author has decreased by exactly 5.
\<close>

theorem deleteQuestion_cascade:
  assumes "findQuestionById (d_questionId p) (Questions s) = Some q"
    and "distinct (map q_id (Questions s))"
  shows "deleteQuestion p s =
           (Returned (),
            s\<lparr>Questions := filter (\<lambda>q'. q_id q' \<noteq> d_questionId p) (Questions s),
              Answers := filter (\<lambda>a. a_question a \<noteq> d_questionId p) (Answers s),
              Interactions := filter (\<lambda>i. i_question i \<noteq> d_questionId p) (Interactions s),
              Tags := map (\<lambda>t. t\<lparr>t_questions := removeAll (d_questionId p) (t_questions t)\<rparr>)
                        (Tags s),
              Users := update_first (\<lambda>u. u_id u = q_author q)
                         (\<lambda>u. u\<lparr>u_reputation := u_reputation u - 5\<rparr>) (Users s),
              revalidated := revalidated s @ [d_path p]\<rparr>) \<and>
         findQuestionById (d_questionId p) (Questions (snd (deleteQuestion p s))) = None \<and>
         (\<forall>a \<in> set (Answers (snd (deleteQuestion p s))). a_question a \<noteq> d_questionId p) \<and>
         (\<forall>i \<in> set (Interactions (snd (deleteQuestion p s))). i_question i \<noteq> d_questionId p) \<and>
         (\<forall>t \<in> set (Tags (snd (deleteQuestion p s))). d_questionId p \<notin> set (t_questions t)) \<and>
         reputation_of (snd (deleteQuestion p s)) x =
           map_option (\<lambda>r. if x = q_author q then r - 5 else r) (reputation_of s x)"
proof -
  let ?s' = "snd (deleteQuestion p s)"
  have del: "deleteOne (\<lambda>q. q_id q = d_questionId p) (Questions s) =
             filter (\<lambda>q'. q_id q' \<noteq> d_questionId p) (Questions s)"
    using assms unfolding findQuestionById_def by (simp add: deleteOne_distinct)
  have eq: "deleteQuestion p s =
           (Returned (),
            s\<lparr>Questions := filter (\<lambda>q'. q_id q' \<noteq> d_questionId p) (Questions s),
              Answers := filter (\<lambda>a. a_question a \<noteq> d_questionId p) (Answers s),
              Interactions := filter (\<lambda>i. i_question i \<noteq> d_questionId p) (Interactions s),
              Tags := map (\<lambda>t. t\<lparr>t_questions := removeAll (d_questionId p) (t_questions t)\<rparr>)
                        (Tags s),
              Users := update_first (\<lambda>u. u_id u = q_author q)
                         (\<lambda>u. u\<lparr>u_reputation := u_reputation u - 5\<rparr>) (Users s),
              revalidated := revalidated s @ [d_path p]\<rparr>)"
    using assms(1)
    by (simp add: deleteQuestion_def Let_def revalidatePath_def del pull_question_from_tags_eq
        inc_reputation_def)
  have gone: "findQuestionById (d_questionId p) (Questions ?s') = None"
    unfolding eq findQuestionById_def by (simp add: find_None_iff)
  have ans: "\<forall>a \<in> set (Answers ?s'). a_question a \<noteq> d_questionId p"
    unfolding eq by simp
  have ints: "\<forall>i \<in> set (Interactions ?s'). i_question i \<noteq> d_questionId p"
    unfolding eq by simp
  have tags: "\<forall>t \<in> set (Tags ?s'). d_questionId p \<notin> set (t_questions t)"
    unfolding eq by auto
  have us: "Users ?s' = inc_reputation (q_author q) (- 5) (Users s)"
    unfolding eq by (simp add: inc_reputation_def)
  have rep: "reputation_of ?s' x =
           map_option (\<lambda>r. if x = q_author q then r - 5 else r) (reputation_of s x)"
    by (cases "findUserById x (Users s)")
       (simp_all add: reputation_of_def us findUserById_inc_reputation)
  show ?thesis
    by (intro conjI) (fact eq, fact gone, fact ans, fact ints, fact tags, fact rep)
qed

text \<open>
  Claim C6, witness: deleting question 12 from the listing store, which also holds
  questions 10 and 11 with their answer, interactions and tags. Questions 10 and 11,
  answer 30 and interactions 40 and 41 stay; tags 20 and 21 keep questions 10 and 11;
  the author, user 2, goes from 10 to 5 and user 1 stays at 5.
\<close>

theorem deleteQuestion_cascade_witness:
  "map_option q_author (findQuestionById (d_questionId (delete_by 12)) (Questions listing_db))
     = Some 2 \<and>
   distinct (map q_id (Questions listing_db)) \<and>
   fst (deleteQuestion (delete_by 12) listing_db) = Returned () \<and>
   map q_id (Questions (snd (deleteQuestion (delete_by 12) listing_db))) = [10, 11] \<and>
   Answers (snd (deleteQuestion (delete_by 12) listing_db)) = [\<lparr>a_id = 30, a_question = 11\<rparr>] \<and>
   map i_id (Interactions (snd (deleteQuestion (delete_by 12) listing_db))) = [40, 41] \<and>
   Tags (snd (deleteQuestion (delete_by 12) listing_db)) =
     [\<lparr>t_id = 20, t_name = ''rust'', t_questions = [10]\<rparr>,
      \<lparr>t_id = 21, t_name = ''go'', t_questions = [11]\<rparr>] \<and>
   Users (snd (deleteQuestion (delete_by 12) listing_db)) =
     [\<lparr>u_id = 1, u_clerkId = ''clerk_a'', u_reputation = 5\<rparr>,
      \<lparr>u_id = 2, u_clerkId = ''clerk_b'', u_reputation = 5\<rparr>] \<and>
   reputation_of listing_db 2 = Some 10 \<and>
   reputation_of (snd (deleteQuestion (delete_by 12) listing_db)) 2 = Some 5"
proof -
  have h: "findQuestionById (d_questionId (delete_by 12)) (Questions listing_db)
             = Some (Questions listing_db ! 2)"
    by (simp add: delete_by_def listing_db_def findQuestionById_def)
  have d: "distinct (map q_id (Questions listing_db))"
    by (simp add: listing_db_def)
  have a: "q_author (Questions listing_db ! 2) = 2" "d_questionId (delete_by 12) = 12"
    by (simp_all add: listing_db_def delete_by_def)
  have r: "reputation_of listing_db 2 = Some 10"
    by (simp add: listing_db_def reputation_of_def findUserById_def)
  have e: "deleteQuestion (delete_by 12) listing_db =
           (Returned (),
            listing_db\<lparr>Questions := filter (\<lambda>q'. q_id q' \<noteq> 12) (Questions listing_db),
              Answers := filter (\<lambda>a. a_question a \<noteq> 12) (Answers listing_db),
              Interactions := filter (\<lambda>i. i_question i \<noteq> 12) (Interactions listing_db),
              Tags := map (\<lambda>t. t\<lparr>t_questions := removeAll 12 (t_questions t)\<rparr>)
                        (Tags listing_db),
              Users := update_first (\<lambda>u. u_id u = 2)
                         (\<lambda>u. u\<lparr>u_reputation := u_reputation u - 5\<rparr>) (Users listing_db),
              revalidated := revalidated listing_db @ [d_path (delete_by 12)]\<rparr>)"
    using deleteQuestion_cascade [OF h d, of 2] unfolding a by (rule conjunct1)
  have v: "fst (deleteQuestion (delete_by 12) listing_db) = Returned ()"
    "map q_id (Questions (snd (deleteQuestion (delete_by 12) listing_db))) = [10, 11]"
    "Answers (snd (deleteQuestion (delete_by 12) listing_db)) = [\<lparr>a_id = 30, a_question = 11\<rparr>]"
    "map i_id (Interactions (snd (deleteQuestion (delete_by 12) listing_db))) = [40, 41]"
    "Tags (snd (deleteQuestion (delete_by 12) listing_db)) =
       [\<lparr>t_id = 20, t_name = ''rust'', t_questions = [10]\<rparr>,
        \<lparr>t_id = 21, t_name = ''go'', t_questions = [11]\<rparr>]"
    "Users (snd (deleteQuestion (delete_by 12) listing_db)) =
       [\<lparr>u_id = 1, u_clerkId = ''clerk_a'', u_reputation = 5\<rparr>,
        \<lparr>u_id = 2, u_clerkId = ''clerk_b'', u_reputation = 5\<rparr>]"
    unfolding e by (simp_all add: listing_db_def)
  have r': "reputation_of (snd (deleteQuestion (delete_by 12) listing_db)) 2 = Some 5"
    by (simp add: reputation_of_def v(6) findUserById_def)
  have h': "map_option q_author
              (findQuestionById (d_questionId (delete_by 12)) (Questions listing_db)) = Some 2"
    using h by (simp add: a)
  show ?thesis
    by (intro conjI) (fact h', fact d, fact v(1), fact v(2), fact v(3), fact v(4), fact v(5),
        fact v(6), fact r, fact r')
qed

section \<open>Properties of listing and recommending\<close>

lemma limit_positive: "1 \<le> n \<Longrightarrow> limit n xs = take (nat n) xs"
  by (simp add: limit_def)

lemma set_limit_subset: "set (limit n xs) \<subseteq> set xs"
  by (auto simp: limit_def dest: in_set_takeD)

lemma skip_nonneg: "1 \<le> (page::int) \<Longrightarrow> 1 \<le> pageSize \<Longrightarrow> 0 \<le> (page - 1) * pageSize"
  by simp

lemma length_take_page: "1 \<le> n \<Longrightarrow> int (length (map f (take (nat n) xs))) \<le> n"
proof -
  assume "1 \<le> n"
  moreover have "length (map f (take (nat n) xs)) \<le> nat n" by simp
  ultimately show ?thesis by linarith
qed

lemma getQuestions_refused:
  "questions_query re p = Inl e \<Longrightarrow>
   getQuestions re p s = (Threw e, s\<lparr>console := console s @ [e]\<rparr>)"
  by (simp add: getQuestions_def Let_def log_and_rethrow_def)

lemma getQuestions_page:
  assumes "1 \<le> with_default 1 (g_page p)" and "1 \<le> with_default 10 (g_pageSize p)"
    and "questions_query re p = Inr query"
  shows "\<exists>questions.
     questions = map (populate s)
       (take (nat (with_default 10 (g_pageSize p)))
          (drop (nat ((with_default 1 (g_page p) - 1) * with_default 10 (g_pageSize p)))
             (apply_sort (questions_sortOptions p) (filter query (Questions s))))) \<and>
     getQuestions re p s =
       (Returned (questions,
          int (length (filter query (Questions s))) >
            (with_default 1 (g_page p) - 1) * with_default 10 (g_pageSize p) +
            int (length questions)),
        s)"
proof -
  have "\<not> (with_default 1 (g_page p) - 1) * with_default 10 (g_pageSize p) < 0"
    using skip_nonneg [OF assms(1,2)] by simp
  then show ?thesis
    by (simp add: getQuestions_def Let_def assms(3) limit_positive [OF assms(2)])
qed

lemma getRecommendedQuestions_refused:
  "find (\<lambda>u. u_clerkId u = r_userId p) (Users s) = Some usr \<Longrightarrow>
   recommended_query re (distinctUserTagIds s usr) usr (r_searchQuery p) = Inl e \<Longrightarrow>
   getRecommendedQuestions re p s = (Threw e, s\<lparr>console := console s @ [e]\<rparr>)"
  by (simp add: getRecommendedQuestions_def Let_def log_and_rethrow_def)

lemma getRecommendedQuestions_page:
  assumes "1 \<le> with_default 1 (r_page p)" and "1 \<le> with_default 10 (r_pageSize p)"
    and "find (\<lambda>u. u_clerkId u = r_userId p) (Users s) = Some usr"
    and "recommended_query re (distinctUserTagIds s usr) usr (r_searchQuery p) = Inr query"
  shows "\<exists>questions.
     questions = map (populate s)
       (take (nat (with_default 10 (r_pageSize p)))
          (drop (nat ((with_default 1 (r_page p) - 1) * with_default 10 (r_pageSize p)))
             (filter query (Questions s)))) \<and>
     getRecommendedQuestions re p s =
       (Returned (questions,
          int (length (filter query (Questions s))) >
            (with_default 1 (r_page p) - 1) * with_default 10 (r_pageSize p) +
            int (length questions)),
        s)"
proof -
  have "\<not> (with_default 1 (r_page p) - 1) * with_default 10 (r_pageSize p) < 0"
    using skip_nonneg [OF assms(1,2)] by simp
  then show ?thesis
    using assms(3,4)
    by (simp add: getRecommendedQuestions_def Let_def limit_positive [OF assms(2)])
qed

lemma example_engine_refuses: "example_engine ''c++'' = None"
  by code_simp

text \<open>
  Claim C7: for \<^verbatim>\<open>page\<close> and \<^verbatim>\<open>pageSize\<close> of at least 1 (given or by default), whatever
  the engine, \<^verbatim>\<open>getQuestions\<close> either throws, when the search text is refused as a
  pattern, or returns at most \<^verbatim>\<open>pageSize\<close> questions with an \<^verbatim>\<open>isNext\<close> that is true
  exactly when the number of questions matching its query exceeds
  \<open>(page - 1) * pageSize\<close> plus the number returned. The same holds of
  \<^verbatim>\<open>getRecommendedQuestions\<close> for a user that exists. The two are stated apart, each
  under its own hypotheses.
\<close>

theorem pagination_bounds:
  "(1 \<le> with_default 1 (g_page p) \<and> 1 \<le> with_default 10 (g_pageSize p) \<longrightarrow>
      (case questions_query re p of
         Inl e \<Rightarrow> getQuestions re p s = (Threw e, s\<lparr>console := console s @ [e]\<rparr>)
       | Inr query \<Rightarrow>
           (\<exists>questions isNext.
              getQuestions re p s = (Returned (questions, isNext), s) \<and>
              int (length questions) \<le> with_default 10 (g_pageSize p) \<and>
              isNext = (int (length (filter query (Questions s))) >
                        (with_default 1 (g_page p) - 1) * with_default 10 (g_pageSize p) +
                        int (length questions))))) \<and>
   (1 \<le> with_default 1 (r_page rp) \<and> 1 \<le> with_default 10 (r_pageSize rp) \<and>
    find (\<lambda>u. u_clerkId u = r_userId rp) (Users s) = Some usr \<longrightarrow>
      (case recommended_query re (distinctUserTagIds s usr) usr (r_searchQuery rp) of
         Inl e \<Rightarrow> getRecommendedQuestions re rp s = (Threw e, s\<lparr>console := console s @ [e]\<rparr>)
       | Inr query \<Rightarrow>
           (\<exists>questions isNext.
              getRecommendedQuestions re rp s = (Returned (questions, isNext), s) \<and>
              int (length questions) \<le> with_default 10 (r_pageSize rp) \<and>
              isNext = (int (length (filter query (Questions s))) >
                        (with_default 1 (r_page rp) - 1) * with_default 10 (r_pageSize rp) +
                        int (length questions)))))"
proof (intro conjI impI)
  assume a: "1 \<le> with_default 1 (g_page p) \<and> 1 \<le> with_default 10 (g_pageSize p)"
  show "case questions_query re p of
         Inl e \<Rightarrow> getQuestions re p s = (Threw e, s\<lparr>console := console s @ [e]\<rparr>)
       | Inr query \<Rightarrow>
           (\<exists>questions isNext.
              getQuestions re p s = (Returned (questions, isNext), s) \<and>
              int (length questions) \<le> with_default 10 (g_pageSize p) \<and>
              isNext = (int (length (filter query (Questions s))) >
                        (with_default 1 (g_page p) - 1) * with_default 10 (g_pageSize p) +
                        int (length questions)))"
  proof (cases "questions_query re p")
    case (Inl e)
    then show ?thesis by (simp add: getQuestions_refused)
  next
    case (Inr query)
    from a have "1 \<le> with_default 1 (g_page p)" "1 \<le> with_default 10 (g_pageSize p)"
      by simp_all
    from getQuestions_page [OF this Inr, of s] obtain questions where
      q: "questions = map (populate s)
           (take (nat (with_default 10 (g_pageSize p)))
              (drop (nat ((with_default 1 (g_page p) - 1) * with_default 10 (g_pageSize p)))
                 (apply_sort (questions_sortOptions p) (filter query (Questions s)))))"
      and g: "getQuestions re p s =
       (Returned (questions,
          int (length (filter query (Questions s))) >
            (with_default 1 (g_page p) - 1) * with_default 10 (g_pageSize p) +
            int (length questions)),
        s)"
      by blast
    have "int (length questions) \<le> with_default 10 (g_pageSize p)"
      unfolding q using a by (intro length_take_page) simp
    with g show ?thesis
      unfolding Inr by auto
  qed
next
  assume a: "1 \<le> with_default 1 (r_page rp) \<and> 1 \<le> with_default 10 (r_pageSize rp) \<and>
    find (\<lambda>u. u_clerkId u = r_userId rp) (Users s) = Some usr"
  then have u: "find (\<lambda>u. u_clerkId u = r_userId rp) (Users s) = Some usr" by simp
  show "case recommended_query re (distinctUserTagIds s usr) usr (r_searchQuery rp) of
         Inl e \<Rightarrow> getRecommendedQuestions re rp s = (Threw e, s\<lparr>console := console s @ [e]\<rparr>)
       | Inr query \<Rightarrow>
           (\<exists>questions isNext.
              getRecommendedQuestions re rp s = (Returned (questions, isNext), s) \<and>
              int (length questions) \<le> with_default 10 (r_pageSize rp) \<and>
              isNext = (int (length (filter query (Questions s))) >
                        (with_default 1 (r_page rp) - 1) * with_default 10 (r_pageSize rp) +
                        int (length questions)))"
  proof (cases "recommended_query re (distinctUserTagIds s usr) usr (r_searchQuery rp)")
    case (Inl e)
    then show ?thesis by (simp add: getRecommendedQuestions_refused [OF u])
  next
    case (Inr query)
    from a have "1 \<le> with_default 1 (r_page rp)" "1 \<le> with_default 10 (r_pageSize rp)"
      by simp_all
    from getRecommendedQuestions_page [OF this u Inr] obtain questions where
      q: "questions = map (populate s)
           (take (nat (with_default 10 (r_pageSize rp)))
              (drop (nat ((with_default 1 (r_page rp) - 1) * with_default 10 (r_pageSize rp)))
                 (filter query (Questions s))))"
      and g: "getRecommendedQuestions re rp s =
       (Returned (questions,
          int (length (filter query (Questions s))) >
            (with_default 1 (r_page rp) - 1) * with_default 10 (r_pageSize rp) +
            int (length questions)),
        s)"
      by blast
    have "int (length questions) \<le> with_default 10 (r_pageSize rp)"
      unfolding q using a by (intro length_take_page) simp
    with g show ?thesis
      unfolding Inr by auto
  qed
qed

text \<open>
  Claim C7, witness: on the listing store the first page of two of the three questions
  has a next page; the one recommendation for the first user fills a page of one and has
  none; and the search text \<^verbatim>\<open>c++\<close> makes the listing throw, the store unchanged but
  for the console.
\<close>

theorem pagination_bounds_witness:
  "1 \<le> with_default 1 (g_page (list_page None None 1 2)) \<and>
   1 \<le> with_default 10 (g_pageSize (list_page None None 1 2)) \<and>
   1 \<le> with_default 1 (r_page (recommend_page ''clerk_a'' None 1 1)) \<and>
   1 \<le> with_default 10 (r_pageSize (recommend_page ''clerk_a'' None 1 1)) \<and>
   find (\<lambda>u. u_clerkId u = r_userId (recommend_page ''clerk_a'' None 1 1)) (Users listing_db)
     = Some (hd (Users listing_db)) \<and>
   (\<exists>questions isNext.
      getQuestions example_engine (list_page None None 1 2) listing_db
        = (Returned (questions, isNext), listing_db) \<and>
      int (length questions) \<le> 2 \<and>
      isNext = (int (length (Questions listing_db)) > (1 - 1) * 2 + int (length questions))) \<and>
   listed (fst (getQuestions example_engine (list_page None None 1 2) listing_db))
     = Some ([10, 11], True) \<and>
   listed (fst (getRecommendedQuestions example_engine (recommend_page ''clerk_a'' None 1 1)
                  listing_db))
     = Some ([12], False) \<and>
   getQuestions example_engine (list_page (Some ''c++'') None 1 2) listing_db
     = (Threw RegExpSyntaxError, listing_db\<lparr>console := [RegExpSyntaxError]\<rparr>)"
proof -
  let ?p = "list_page None None 1 2" and ?rp = "recommend_page ''clerk_a'' None 1 1"
  let ?bad = "list_page (Some ''c++'') None 1 2"
  have g: "1 \<le> with_default 1 (g_page ?p)" "1 \<le> with_default 10 (g_pageSize ?p)"
    by (simp_all add: list_page_def with_default_def)
  have r: "1 \<le> with_default 1 (r_page ?rp)" "1 \<le> with_default 10 (r_pageSize ?rp)"
    by (simp_all add: recommend_page_def with_default_def)
  have u: "find (\<lambda>u. u_clerkId u = r_userId ?rp) (Users listing_db) = Some (hd (Users listing_db))"
    by (simp add: recommend_page_def listing_db_def)
  have q: "questions_query example_engine ?p = Inr (\<lambda>q. True)"
    by (simp add: questions_query_def search_clause_def list_page_def)
  have v: "with_default 1 (g_page ?p) = 1" "with_default 10 (g_pageSize ?p) = 2"
    by (simp_all add: list_page_def with_default_def)
  from pagination_bounds [where p = ?p and re = example_engine and s = listing_db] g
  have c: "\<exists>questions isNext.
      getQuestions example_engine ?p listing_db = (Returned (questions, isNext), listing_db) \<and>
      int (length questions) \<le> 2 \<and>
      isNext = (int (length (Questions listing_db)) > (1 - 1) * 2 + int (length questions))"
    unfolding q v by simp
  have gb: "1 \<le> with_default 1 (g_page ?bad)" "1 \<le> with_default 10 (g_pageSize ?bad)"
    by (simp_all add: list_page_def with_default_def)
  have qb: "questions_query example_engine ?bad = Inl RegExpSyntaxError"
    by (simp add: questions_query_def search_clause_def list_page_def example_engine_refuses)
  from pagination_bounds [where p = ?bad and re = example_engine and s = listing_db] gb
  have t: "getQuestions example_engine ?bad listing_db
             = (Threw RegExpSyntaxError, listing_db\<lparr>console := [RegExpSyntaxError]\<rparr>)"
    unfolding qb by (simp add: listing_db_def)
  have e1: "listed (fst (getQuestions example_engine ?p listing_db)) = Some ([10, 11], True)"
    by code_simp
  have e2: "listed (fst (getRecommendedQuestions example_engine ?rp listing_db))
              = Some ([12], False)"
    by code_simp
  show ?thesis
    by (intro conjI) (fact g(1), fact g(2), fact r(1), fact r(2), fact u, fact c, fact e1,
        fact e2, fact t)
qed

text \<open>
  Claim C9: with a filter other than \<^verbatim>\<open>newest\<close>, \<^verbatim>\<open>frequent\<close> and
  \<^verbatim>\<open>unanswered\<close> (or with none) and \<^verbatim>\<open>page\<close> and \<^verbatim>\<open>pageSize\<close> of at least 1,
  whatever the engine, \<^verbatim>\<open>getQuestions\<close> either throws, when the search text is refused
  as a pattern, or returns the page cut out of the questions in their natural order,
  narrowed by nothing but the search clause: the test of the pattern, case ignored, on
  title or content, or no test at all without a search text.
\<close>

theorem unknown_filter_natural_order:
  assumes "g_filter p \<notin> {Some ''newest'', Some ''frequent'', Some ''unanswered''}"
    and "1 \<le> with_default 1 (g_page p)" and "1 \<le> with_default 10 (g_pageSize p)"
  shows "case search_clause re (g_searchQuery p) of
           Inl e \<Rightarrow> getQuestions re p s = (Threw e, s\<lparr>console := console s @ [e]\<rparr>)
         | Inr matches \<Rightarrow>
             (\<exists>isNext. getQuestions re p s =
                (Returned
                   (map (populate s)
                      (take (nat (with_default 10 (g_pageSize p)))
                         (drop (nat ((with_default 1 (g_page p) - 1) *
                                     with_default 10 (g_pageSize p)))
                            (filter matches (Questions s)))),
                    isNext),
                 s))"
proof (cases "search_clause re (g_searchQuery p)")
  case (Inl e)
  then have "questions_query re p = Inl e"
    by (simp add: questions_query_def)
  with Inl show ?thesis by (simp add: getQuestions_refused)
next
  case (Inr matches)
  with assms(1) have q: "questions_query re p = Inr matches"
    by (simp add: questions_query_def)
  have so: "questions_sortOptions p = NoSort"
    using assms(1) by (simp add: questions_sortOptions_def)
  from getQuestions_page [OF assms(2,3) q, of s] show ?thesis
    unfolding Inr so by (auto simp: apply_sort_def)
qed

text \<open>
  Claim C9, witness: the filter \<^verbatim>\<open>popular\<close> with the search text \<^verbatim>\<open>RUST\<close> gives
  questions 10 and 12, in insertion order; with the search text \<^verbatim>\<open>c++\<close> it throws.
\<close>

theorem unknown_filter_natural_order_witness:
  "g_filter (list_page (Some ''RUST'') (Some ''popular'') 1 2)
     \<notin> {Some ''newest'', Some ''frequent'', Some ''unanswered''} \<and>
   1 \<le> with_default 1 (g_page (list_page (Some ''RUST'') (Some ''popular'') 1 2)) \<and>
   1 \<le> with_default 10 (g_pageSize (list_page (Some ''RUST'') (Some ''popular'') 1 2)) \<and>
   map q_title (Questions listing_db) = [''Rust lifetimes'', ''Go channels'', ''Traits''] \<and>
   map q_content (Questions listing_db) = [''borrow'', ''select'', ''impl in rust''] \<and>
   listed (fst (getQuestions example_engine (list_page (Some ''RUST'') (Some ''popular'') 1 2)
                  listing_db))
     = Some ([10, 12], False) \<and>
   getQuestions example_engine (list_page (Some ''c++'') (Some ''popular'') 1 2) listing_db
     = (Threw RegExpSyntaxError, listing_db\<lparr>console := [RegExpSyntaxError]\<rparr>)"
proof -
  let ?p = "list_page (Some ''RUST'') (Some ''popular'') 1 2"
  let ?bad = "list_page (Some ''c++'') (Some ''popular'') 1 2"
  have f: "g_filter ?p \<notin> {Some ''newest'', Some ''frequent'', Some ''unanswered''}"
    by (simp add: list_page_def)
  have g: "1 \<le> with_default 1 (g_page ?p)" "1 \<le> with_default 10 (g_pageSize ?p)"
    by (simp_all add: list_page_def with_default_def)
  have fb: "g_filter ?bad \<notin> {Some ''newest'', Some ''frequent'', Some ''unanswered''}"
    by (simp add: list_page_def)
  have gb: "1 \<le> with_default 1 (g_page ?bad)" "1 \<le> with_default 10 (g_pageSize ?bad)"
    by (simp_all add: list_page_def with_default_def)
  have sb: "search_clause example_engine (g_searchQuery ?bad) = Inl RegExpSyntaxError"
    by (simp add: search_clause_def list_page_def example_engine_refuses)
  from unknown_filter_natural_order [OF fb gb, of example_engine listing_db]
  have t: "getQuestions example_engine ?bad listing_db
             = (Threw RegExpSyntaxError, listing_db\<lparr>console := [RegExpSyntaxError]\<rparr>)"
    unfolding sb by (simp add: listing_db_def)
  have sc: "search_clause example_engine (g_searchQuery ?p) =
              Inr (\<lambda>q. contains_ignoring_case ''RUST'' (q_title q) \<or>
                        contains_ignoring_case ''RUST'' (q_content q))"
    by (simp add: search_clause_def list_page_def example_engine_def plain_def plain_char_def)
  from unknown_filter_natural_order [OF f g, of example_engine listing_db]
  obtain isNext where
    "getQuestions example_engine ?p listing_db =
       (Returned
          (map (populate listing_db)
             (take (nat (with_default 10 (g_pageSize ?p)))
                (drop (nat ((with_default 1 (g_page ?p) - 1) * with_default 10 (g_pageSize ?p)))
                   (filter (\<lambda>q. contains_ignoring_case ''RUST'' (q_title q) \<or>
                                 contains_ignoring_case ''RUST'' (q_content q))
                      (Questions listing_db)))),
           isNext),
        listing_db)"
    unfolding sc by auto
  then have ids: "map_option fst (listed (fst (getQuestions example_engine ?p listing_db))) =
      Some (map q_id
        (take (nat (with_default 10 (g_pageSize ?p)))
           (drop (nat ((with_default 1 (g_page ?p) - 1) * with_default 10 (g_pageSize ?p)))
              (filter (\<lambda>q. contains_ignoring_case ''RUST'' (q_title q) \<or>
                            contains_ignoring_case ''RUST'' (q_content q))
                 (Questions listing_db)))))"
    by (simp add: listed_def populate_def comp_def)
  have e: "listed (fst (getQuestions example_engine ?p listing_db)) = Some ([10, 12], False)"
    by code_simp
  have m: "map q_title (Questions listing_db) = [''Rust lifetimes'', ''Go channels'', ''Traits'']"
    "map q_content (Questions listing_db) = [''borrow'', ''select'', ''impl in rust'']"
    by (simp_all add: listing_db_def)
  show ?thesis
    by (intro conjI) (fact f, fact g(1), fact g(2), fact m(1), fact m(2), fact e, fact t)
qed

lemma set_foldl_concat:
  "set (foldl (\<lambda>acc x. acc @ f x) a xs) = set a \<union> (\<Union>x\<in>set xs. set (f x))"
  by (induction xs arbitrary: a) auto

lemma find_Some_id: "find (\<lambda>t. t_id t = i) ts = Some t \<Longrightarrow> t_id t = i"
  by (induction ts) (auto split: if_splits)

lemma set_map_filter_iff:
  "y \<in> set (List.map_filter f xs) \<longleftrightarrow> (\<exists>x \<in> set xs. f x = Some y)"
  by (induction xs) (auto split: option.splits)

lemma populate_tags_member:
  "t \<in> set (populate_tags s ids) \<Longrightarrow> t_id t \<in> set ids \<and> findTagById (t_id t) (Tags s) = Some t"
  unfolding populate_tags_def findTagById_def
  by (auto simp: set_map_filter_iff dest: find_Some_id)

lemma populate_tags_keeps:
  "i \<in> set ids \<Longrightarrow> findTagById i (Tags s) = Some t \<Longrightarrow> t \<in> set (populate_tags s ids)"
  unfolding populate_tags_def by (auto simp: set_map_filter_iff)

lemma distinctUserTagIds_member:
  assumes "t \<in> set (distinctUserTagIds s usr)"
  shows "(\<exists>i \<in> set (Interactions s). i_user i = u_id usr \<and> t \<in> set (i_tags i)) \<and>
         (\<exists>d. findTagById t (Tags s) = Some d \<and> t_id d = t)"
proof -
  from assms obtain i d where i: "i \<in> set (Interactions s)" "i_user i = u_id usr"
    and d: "d \<in> set (populate_tags s (i_tags i))" "t = t_id d"
    by (auto simp: distinctUserTagIds_def Let_def set_foldl_concat)
  from populate_tags_member [OF d(1)] d(2) i show ?thesis by auto
qed

lemma recommended_query_holds:
  "recommended_query re tagIds usr sq = Inr query \<Longrightarrow> query q \<Longrightarrow>
   list_ex (\<lambda>t. t \<in> set tagIds) (q_tags q) \<and> q_author q \<noteq> u_id usr"
  by (auto simp: recommended_query_def split: sum.splits)

text \<open>
  Claim C8: whatever the engine, every question that \<^verbatim>\<open>getRecommendedQuestions\<close>
  returns has an author other than the requesting user and has a tag that occurs in an
  interaction of that user, whatever the search text is or whether there is one.
\<close>

theorem recommended_excludes_own_and_shares_tag:
  assumes "find (\<lambda>u. u_clerkId u = r_userId p) (Users s) = Some usr"
    and "getRecommendedQuestions re p s = (Returned (questions, isNext), s')"
    and "pq \<in> set questions"
  shows "q_author (p_question pq) \<noteq> u_id usr \<and>
         p_author pq \<noteq> Some usr \<and>
         (\<exists>t \<in> set (q_tags (p_question pq)).
            \<exists>i \<in> set (Interactions s). i_user i = u_id usr \<and> t \<in> set (i_tags i)) \<and>
         (\<exists>d \<in> set (p_tags pq).
            \<exists>i \<in> set (Interactions s). i_user i = u_id usr \<and> t_id d \<in> set (i_tags i))"
proof -
  from assms(1,2) obtain query where
    rq: "recommended_query re (distinctUserTagIds s usr) usr (r_searchQuery p) = Inr query"
    and qs: "questions = map (populate s)
      (limit (with_default 10 (r_pageSize p))
        (drop (nat ((with_default 1 (r_page p) - 1) * with_default 10 (r_pageSize p)))
           (filter query (Questions s))))"
    by (auto simp: getRecommendedQuestions_def Let_def log_and_rethrow_def
        split: if_splits sum.splits)
  let ?page = "limit (with_default 10 (r_pageSize p))
      (drop (nat ((with_default 1 (r_page p) - 1) * with_default 10 (r_pageSize p)))
         (filter query (Questions s)))"
  from qs assms(3) obtain q where q: "q \<in> set ?page" and pq: "pq = populate s q"
    by auto
  have "q \<in> set (filter query (Questions s))"
    using q set_limit_subset set_drop_subset by fast
  then have "query q" by simp
  from recommended_query_holds [OF rq this]
  have own: "q_author q \<noteq> u_id usr"
    and ex: "list_ex (\<lambda>t. t \<in> set (distinctUserTagIds s usr)) (q_tags q)"
    by simp_all
  from ex obtain t where t: "t \<in> set (q_tags q)" "t \<in> set (distinctUserTagIds s usr)"
    by (auto simp: list_ex_iff)
  from distinctUserTagIds_member [OF t(2)] obtain i d
    where i: "i \<in> set (Interactions s)" "i_user i = u_id usr" "t \<in> set (i_tags i)"
      and d: "findTagById t (Tags s) = Some d" "t_id d = t"
    by auto
  have dp: "d \<in> set (p_tags pq)"
    unfolding pq populate_def using populate_tags_keeps [OF t(1) d(1)] by simp
  have pa: "p_author pq \<noteq> Some usr"
  proof
    assume "p_author pq = Some usr"
    then have "find (\<lambda>u. u_id u = q_author q) (Users s) = Some usr"
      by (simp add: pq populate_def findUserById_def)
    then have "u_id usr = q_author q"
      by (induction "Users s") (auto simp: find_Some_iff)
    with own show False by simp
  qed
  show ?thesis
    using own pa t(1) i d(2) dp by (auto simp: pq populate_def)
qed

text \<open>
  Claim C8, witness: for the second user, with the search text \<^verbatim>\<open>RUST\<close> and without
  one, the recommendation is question 10 of the first user.
\<close>

theorem recommended_excludes_own_and_shares_tag_witness:
  "find (\<lambda>u. u_clerkId u = r_userId (recommend_page ''clerk_b'' (Some ''RUST'') 1 1))
     (Users listing_db) = Some (Users listing_db ! 1) \<and>
   getRecommendedQuestions example_engine (recommend_page ''clerk_b'' (Some ''RUST'') 1 1)
       listing_db =
     (Returned ([populate listing_db (hd (Questions listing_db))], False), listing_db) \<and>
   populate listing_db (hd (Questions listing_db))
     \<in> set [populate listing_db (hd (Questions listing_db))] \<and>
   q_author (hd (Questions listing_db)) \<noteq> u_id (Users listing_db ! 1) \<and>
   listed (fst (getRecommendedQuestions example_engine (recommend_page ''clerk_b'' None 1 1)
                  listing_db))
     = Some ([10], False)"
proof -
  have u: "find (\<lambda>u. u_clerkId u = r_userId (recommend_page ''clerk_b'' (Some ''RUST'') 1 1))
             (Users listing_db) = Some (Users listing_db ! 1)"
    by (simp add: recommend_page_def listing_db_def)
  have e: "getRecommendedQuestions example_engine (recommend_page ''clerk_b'' (Some ''RUST'') 1 1)
             listing_db =
             (Returned ([populate listing_db (hd (Questions listing_db))], False), listing_db)"
    by code_simp
  have m: "populate listing_db (hd (Questions listing_db))
             \<in> set [populate listing_db (hd (Questions listing_db))]"
    by simp
  have n: "listed (fst (getRecommendedQuestions example_engine
                          (recommend_page ''clerk_b'' None 1 1) listing_db))
             = Some ([10], False)"
    by code_simp
  from recommended_excludes_own_and_shares_tag [OF u e m]
  have o: "q_author (hd (Questions listing_db)) \<noteq> u_id (Users listing_db ! 1)"
    by (simp add: populate_def)
  show ?thesis
    by (intro conjI) (fact u, fact e, fact m, fact o, fact n)
qed

section \<open>Properties of creating a question\<close>






























text \<open>
  A tag that the engine refuses as a pattern ends the call in the \<^verbatim>\<open>catch\<close>: the
  question stays, without tags, and nothing else happens but the line on the console.
\<close>

lemma createQuestion_first_tag_refused:
  assumes "c_tags p = tg # rest" and "re (''^'' @ tg @ ''$'') = None"
  shows "createQuestion re p s =
           (Returned (),
            s\<lparr>Questions := Questions s @ [new_question p s], next_oid := Suc (next_oid s),
              console := console s @ [RegExpSyntaxError]\<rparr>)"
  using assms by (simp add: createQuestion_def Let_def upsertTag_def log_and_swallow_def)



end
